theory Spec2Isabelle
  imports Main
begin

section \<open>Constants of first\_game.py\<close>

definition SCREEN_WIDTH :: int where
  "SCREEN_WIDTH = 800"

definition SCREEN_HEIGHT :: int where
  "SCREEN_HEIGHT = 600"

definition NEW_ENEMY_INTERVAL :: int where
  "NEW_ENEMY_INTERVAL = 250"

definition FRAME_RATE :: int where
  "FRAME_RATE = 30"

section \<open>pygame.Rect\<close>

text \<open>
  A \<^verbatim>\<open>pygame.Rect\<close> stores x, y, w, h as C ints; left, right, top, bottom and center
  are virtual attributes computed from them. The attributes and \<^verbatim>\<open>move_ip\<close> are written
  twice. The exact versions (\<open>rect_right\<close>, \<open>move_ip\<close>, ...) are used where the game keeps
  the operands far inside the range of a C int: an enemy lives between its spawn
  position and the left border of the screen. The versions in C arithmetic (\<open>c_right\<close>,
  \<open>c_move_ip\<close>, ...), in which a sum that leaves the range wraps around, are used by
  \<^verbatim>\<open>Player.update\<close>, whose property is stated for an arbitrary starting rectangle.
\<close>

record Rect =
  rect_x :: int
  rect_y :: int
  rect_w :: int
  rect_h :: int

definition rect_left :: "Rect \<Rightarrow> int" where
  "rect_left r = rect_x r"

definition rect_right :: "Rect \<Rightarrow> int" where
  "rect_right r = rect_x r + rect_w r"

definition rect_top :: "Rect \<Rightarrow> int" where
  "rect_top r = rect_y r"

definition rect_bottom :: "Rect \<Rightarrow> int" where
  "rect_bottom r = rect_y r + rect_h r"

definition rect_centerx :: "Rect \<Rightarrow> int" where
  "rect_centerx r = rect_x r + rect_w r div 2"

definition rect_centery :: "Rect \<Rightarrow> int" where
  "rect_centery r = rect_y r + rect_h r div 2"

text \<open>Assigning to \<^verbatim>\<open>rect.left\<close>, \<^verbatim>\<open>rect.top\<close> or \<^verbatim>\<open>rect.center\<close> moves the rectangle
  and keeps its size.\<close>

definition set_left :: "int \<Rightarrow> Rect \<Rightarrow> Rect" where
  "set_left v r = r\<lparr>rect_x := v\<rparr>"

definition set_top :: "int \<Rightarrow> Rect \<Rightarrow> Rect" where
  "set_top v r = r\<lparr>rect_y := v\<rparr>"

definition set_center :: "int \<times> int \<Rightarrow> Rect \<Rightarrow> Rect" where
  "set_center c r = r\<lparr>rect_x := fst c - rect_w r div 2, rect_y := snd c - rect_h r div 2\<rparr>"

definition move_ip :: "Rect \<Rightarrow> int \<Rightarrow> int \<Rightarrow> Rect" where
  "move_ip r dx dy = r\<lparr>rect_x := rect_x r + dx, rect_y := rect_y r + dy\<rparr>"

text \<open>The range of a C int, the value a C int holds after an addition or subtraction
  (two's complement, 32 bits), and the attributes computed with it: \<^verbatim>\<open>rect.right\<close> is
  read as \<^verbatim>\<open>r.x + r.w\<close> and assigned as \<^verbatim>\<open>r.x = v - r.w\<close>, \<^verbatim>\<open>move_ip\<close> is
  \<^verbatim>\<open>r.x += dx; r.y += dy\<close>.\<close>

definition INT_MIN :: int where
  "INT_MIN = - 2147483648"

definition INT_MAX :: int where
  "INT_MAX = 2147483647"

definition c_int :: "int \<Rightarrow> int" where
  "c_int v = (v + 2147483648) mod 4294967296 - 2147483648"

definition c_right :: "Rect \<Rightarrow> int" where
  "c_right r = c_int (rect_x r + rect_w r)"

definition c_bottom :: "Rect \<Rightarrow> int" where
  "c_bottom r = c_int (rect_y r + rect_h r)"

definition c_set_right :: "int \<Rightarrow> Rect \<Rightarrow> Rect" where
  "c_set_right v r = r\<lparr>rect_x := c_int (v - rect_w r)\<rparr>"

definition c_set_bottom :: "int \<Rightarrow> Rect \<Rightarrow> Rect" where
  "c_set_bottom v r = r\<lparr>rect_y := c_int (v - rect_h r)\<rparr>"

definition c_move_ip :: "Rect \<Rightarrow> int \<Rightarrow> int \<Rightarrow> Rect" where
  "c_move_ip r dx dy = r\<lparr>rect_x := c_int (rect_x r + dx), rect_y := c_int (rect_y r + dy)\<rparr>"

text \<open>\<^verbatim>\<open>Surface.get_rect()\<close>: a rectangle of the surface's size at (0, 0). The surfaces
  of the game are loaded from image files found at run time, so their size
  (width, height) is a parameter. \<^verbatim>\<open>get_rect(center = (x, y))\<close> then assigns the centre.\<close>

definition get_rect :: "int \<times> int \<Rightarrow> Rect" where
  "get_rect sz = \<lparr>rect_x = 0, rect_y = 0, rect_w = fst sz, rect_h = snd sz\<rparr>"

definition get_rect_center :: "int \<times> int \<Rightarrow> int \<times> int \<Rightarrow> Rect" where
  "get_rect_center sz c = set_center c (get_rect sz)"

text \<open>\<^verbatim>\<open>Rect.colliderect\<close> (pygame 2): rectangles of zero width or height collide with
  nothing; otherwise the test compares the normalised edges strictly.\<close>

definition colliderect :: "Rect \<Rightarrow> Rect \<Rightarrow> bool" where
  "colliderect A B =
     (if rect_w A = 0 \<or> rect_h A = 0 \<or> rect_w B = 0 \<or> rect_h B = 0 then False
      else min (rect_x A) (rect_x A + rect_w A) < max (rect_x B) (rect_x B + rect_w B)
         \<and> min (rect_y A) (rect_y A + rect_h A) < max (rect_y B) (rect_y B + rect_h B)
         \<and> max (rect_x A) (rect_x A + rect_w A) > min (rect_x B) (rect_x B + rect_w B)
         \<and> max (rect_y A) (rect_y A + rect_h A) > min (rect_y B) (rect_y B + rect_h B))"

text \<open>The specification's collision test: the two rectangles, read as half-open boxes of
  pixels, have a pixel in common.\<close>

definition half_open_box :: "Rect \<Rightarrow> (int \<times> int) set" where
  "half_open_box r =
     {min (rect_x r) (rect_x r + rect_w r) ..< max (rect_x r) (rect_x r + rect_w r)}
     \<times> {min (rect_y r) (rect_y r + rect_h r) ..< max (rect_y r) (rect_y r + rect_h r)}"

definition half_open_overlap :: "Rect \<Rightarrow> Rect \<Rightarrow> bool" where
  "half_open_overlap A B \<longleftrightarrow> half_open_box A \<inter> half_open_box B \<noteq> {}"

section \<open>Keys and sprites\<close>

datatype key = K_UP | K_DOWN | K_LEFT | K_RIGHT | K_ESCAPE | K_OTHER

text \<open>The result of \<^verbatim>\<open>pygame.key.get_pressed()\<close>: one boolean per key.\<close>

type_synonym pressed = "key \<Rightarrow> bool"

record Sprite =
  rect :: Rect

record Enemy = Sprite +
  speed :: int

type_synonym Player = Sprite

subsection \<open>Enemy\<close>

definition Enemy_width :: int where
  "Enemy_width = 20"

definition Enemy_height :: int where
  "Enemy_height = 10"

text \<open>\<^verbatim>\<open>Enemy.__init__\<close>: \<open>img\<close> is the size of the surface loaded from the sprite image;
  \<open>x\<close>, \<open>y\<close> and \<open>s\<close> are the results of the three calls of \<^verbatim>\<open>random.randint\<close>, in
  order. \<open>randint_ok\<close> says that they lie in the ranges the calls ask for.\<close>

definition Enemy_init :: "int \<times> int \<Rightarrow> int \<Rightarrow> int \<Rightarrow> int \<Rightarrow> Enemy" where
  "Enemy_init img x y s = \<lparr>rect = get_rect_center img (x, y), speed = s\<rparr>"

definition randint_ok :: "int \<times> int \<times> int \<Rightarrow> bool" where
  "randint_ok d = (case d of (x, y, s) \<Rightarrow>
     SCREEN_WIDTH + 20 \<le> x \<and> x \<le> SCREEN_WIDTH + 100 \<and> 0 \<le> y \<and> y \<le> SCREEN_HEIGHT
     \<and> 5 \<le> s \<and> s \<le> 20)"

text \<open>\<^verbatim>\<open>Enemy.update\<close> returns the moved enemy and whether it called \<^verbatim>\<open>self.kill()\<close>.\<close>

definition Enemy_update :: "Enemy \<Rightarrow> Enemy \<times> bool" where
  "Enemy_update e =
     (let e' = e\<lparr>rect := move_ip (rect e) (- speed e) 0\<rparr>
      in (e', rect_right (rect e') < 0))"

definition Enemy_updates :: "nat \<Rightarrow> Enemy \<Rightarrow> Enemy" where
  "Enemy_updates k e = ((\<lambda>e. fst (Enemy_update e)) ^^ k) e"

subsection \<open>Player\<close>

definition Player_width :: int where
  "Player_width = 75"

definition Player_height :: int where
  "Player_height = 25"

definition Player_init :: "int \<times> int \<Rightarrow> Player" where
  "Player_init img = \<lparr>rect = get_rect img\<rparr>"

definition key_offset :: "pressed \<Rightarrow> int \<times> int" where
  "key_offset pressed_keys =
     (let x = 0; y = 0;
          y = (if pressed_keys K_UP then - 5 else y);
          y = (if pressed_keys K_DOWN then 5 else y);
          x = (if pressed_keys K_LEFT then - 5 else x);
          x = (if pressed_keys K_RIGHT then 5 else x)
      in (x, y))"

definition clamp_left :: "Rect \<Rightarrow> Rect" where
  "clamp_left r = (if rect_left r < 0 then set_left 0 r else r)"

definition clamp_right :: "Rect \<Rightarrow> Rect" where
  "clamp_right r = (if c_right r > SCREEN_WIDTH then c_set_right SCREEN_WIDTH r else r)"

definition clamp_top :: "Rect \<Rightarrow> Rect" where
  "clamp_top r = (if rect_top r \<le> 0 then set_top 0 r else r)"

definition clamp_bottom :: "Rect \<Rightarrow> Rect" where
  "clamp_bottom r = (if c_bottom r \<ge> SCREEN_HEIGHT then c_set_bottom SCREEN_HEIGHT r else r)"

definition Player_update :: "pressed \<Rightarrow> Player \<Rightarrow> Player" where
  "Player_update pressed_keys p =
     (let (x, y) = key_offset pressed_keys;
          r = c_move_ip (rect p) x y;
          r = clamp_left r;
          r = clamp_right r;
          r = clamp_top r;
          r = clamp_bottom r
      in p\<lparr>rect := r\<rparr>)"

section \<open>Sprite groups and the state of the game\<close>

text \<open>
  Sprites are objects: a group holds references to them. \<open>PlayerRef\<close> is the one Player
  of \<^verbatim>\<open>main\<close>; \<open>EnemyRef i\<close> is the i-th Enemy constructed. A
  \<^verbatim>\<open>pygame.sprite.Group\<close> keeps its members in insertion order, each at most once.
\<close>

datatype sprite_ref = PlayerRef | EnemyRef nat

type_synonym group = "sprite_ref list"

definition Group_add :: "sprite_ref \<Rightarrow> group \<Rightarrow> group" where
  "Group_add s g = (if s \<in> set g then g else g @ [s])"

definition Group_remove :: "sprite_ref \<Rightarrow> group \<Rightarrow> group" where
  "Group_remove s g = removeAll s g"

datatype error = UnboundLocalError | TypeError

datatype effect =
    SetTimer int
  | BlitBackground
  | Blit sprite_ref Rect
  | PlayCollisionSound
  | Flip
  | Tick int
  | Sleep int
  | MusicStop
  | MixerQuit

text \<open>
  The state of \<^verbatim>\<open>main\<close>: the global \<open>running\<close>, the locals \<open>player\<close>, \<open>enemies\<close>,
  \<open>all_sprites\<close> and \<open>pressed_keys\<close> (\<open>None\<close> while the local has never been assigned),
  the Enemy objects by identity (\<open>objs\<close>, with \<open>next_id\<close> the number constructed so
  far), and the calls made to the display, the clock and the mixer, in order.
\<close>

record game =
  running :: bool
  player :: Player
  objs :: "nat \<Rightarrow> Enemy"
  next_id :: nat
  enemies :: group
  all_sprites :: group
  pressed_keys :: "pressed option"
  trace :: "effect list"

definition sprite_rect :: "game \<Rightarrow> sprite_ref \<Rightarrow> Rect" where
  "sprite_rect g s = (case s of PlayerRef \<Rightarrow> rect (player g) | EnemyRef i \<Rightarrow> rect (objs g i))"

text \<open>\<^verbatim>\<open>Sprite.kill()\<close> removes the sprite from every group that holds it.\<close>

definition kill :: "sprite_ref \<Rightarrow> game \<Rightarrow> game" where
  "kill s g = g\<lparr>enemies := Group_remove s (enemies g),
                all_sprites := Group_remove s (all_sprites g)\<rparr>"

text \<open>
  \<^verbatim>\<open>Group.update()\<close> calls \<^verbatim>\<open>update()\<close> on every sprite of a snapshot of the group
  (\<^verbatim>\<open>self.sprites()\<close>), so a sprite that kills itself does not disturb the
  iteration. \<^verbatim>\<open>Player.update\<close> needs an argument, so calling it this way raises.
\<close>

fun Group_update :: "sprite_ref list \<Rightarrow> game \<Rightarrow> error + game" where
  "Group_update [] g = Inr g"
| "Group_update (PlayerRef # rs) g = Inl TypeError"
| "Group_update (EnemyRef i # rs) g =
     (let (e', killed) = Enemy_update (objs g i);
          g1 = g\<lparr>objs := (objs g)(i := e')\<rparr>;
          g2 = (if killed then kill (EnemyRef i) g1 else g1)
      in Group_update rs g2)"

text \<open>\<^verbatim>\<open>pygame.sprite.spritecollideany\<close>: the first sprite of the group whose rectangle
  collides with the given sprite's, or \<open>None\<close>.\<close>

definition spritecollideany :: "sprite_ref \<Rightarrow> group \<Rightarrow> game \<Rightarrow> sprite_ref option" where
  "spritecollideany s grp g =
     find (\<lambda>group_sprite. colliderect (sprite_rect g s) (sprite_rect g group_sprite)) grp"

section \<open>Events and the game loop\<close>

datatype event = QUIT | KEYDOWN key | ADD_ENEMY | OTHER_EVENT

text \<open>
  What one iteration of \<^verbatim>\<open>for event in pygame.event.get()\<close> receives from outside:
  the event, the result of the call of \<^verbatim>\<open>pygame.key.get_pressed()\<close> that ends the
  iteration, and the results of the three calls of \<^verbatim>\<open>random.randint\<close> made if the
  iteration constructs an Enemy.
\<close>

record drained =
  event :: event
  held :: pressed
  draws :: "int \<times> int \<times> int"

text \<open>The sizes of the two sprite images found under \<^verbatim>\<open>sprites/\<close> when the game starts.\<close>

record assets =
  player_image :: "int \<times> int"
  enemy_image :: "int \<times> int"

definition is_quit :: "event \<Rightarrow> bool" where
  "is_quit ev = (ev = QUIT \<or> ev = KEYDOWN K_ESCAPE)"

definition spawn_enemy :: "assets \<Rightarrow> int \<times> int \<times> int \<Rightarrow> game \<Rightarrow> game" where
  "spawn_enemy a d g =
     (case d of (x, y, s) \<Rightarrow>
        let new_enemy = EnemyRef (next_id g)
        in g\<lparr>objs := (objs g)(next_id g := Enemy_init (enemy_image a) x y s),
             next_id := Suc (next_id g),
             enemies := Group_add new_enemy (enemies g),
             all_sprites := Group_add new_enemy (all_sprites g)\<rparr>)"

definition handle_event :: "assets \<Rightarrow> drained \<Rightarrow> game \<Rightarrow> game" where
  "handle_event a d g =
     (let g = (if is_quit (event d) then g\<lparr>running := False\<rparr> else g);
          g = (if event d = ADD_ENEMY then spawn_enemy a (draws d) g else g)
      in g\<lparr>pressed_keys := Some (held d)\<rparr>)"

fun process_events :: "assets \<Rightarrow> drained list \<Rightarrow> game \<Rightarrow> game" where
  "process_events a [] g = g"
| "process_events a (d # ds) g = process_events a ds (handle_event a d g)"

definition update_player :: "game \<Rightarrow> error + game" where
  "update_player g =
     (case pressed_keys g of
        None \<Rightarrow> Inl UnboundLocalError
      | Some ks \<Rightarrow> Inr (g\<lparr>player := Player_update ks (player g)\<rparr>))"

definition update_enemies :: "game \<Rightarrow> error + game" where
  "update_enemies g = Group_update (enemies g) g"

definition render :: "game \<Rightarrow> game" where
  "render g =
     g\<lparr>trace := trace g @ [BlitBackground] @ map (\<lambda>s. Blit s (sprite_rect g s)) (all_sprites g)\<rparr>"

definition check_collision :: "game \<Rightarrow> game" where
  "check_collision g =
     (case spritecollideany PlayerRef (enemies g) g of
        None \<Rightarrow> g
      | Some _ \<Rightarrow>
          (let g = kill PlayerRef g;
               g = g\<lparr>trace := trace g @ [PlayCollisionSound]\<rparr>
           in g\<lparr>running := False\<rparr>))"

definition present :: "game \<Rightarrow> game" where
  "present g = g\<lparr>trace := trace g @ [Flip, Tick FRAME_RATE]\<rparr>"

text \<open>One frame: the body of \<^verbatim>\<open>while running\<close>.\<close>

definition frame :: "assets \<Rightarrow> drained list \<Rightarrow> game \<Rightarrow> error + game" where
  "frame a ds g =
     (case update_player (process_events a ds g) of
        Inl e \<Rightarrow> Inl e
      | Inr g2 \<Rightarrow>
          (case update_enemies g2 of
             Inl e \<Rightarrow> Inl e
           | Inr g3 \<Rightarrow> Inr (present (check_collision (render g3)))))"

text \<open>
  The loop reads what the platform delivers frame by frame: \<open>fs\<close> lists, for each frame,
  what its event loop drains. The loop ends when \<open>running\<close> is false; when \<open>fs\<close> is
  used up first, the state reached so far is returned, still running.
\<close>

fun game_loop :: "assets \<Rightarrow> drained list list \<Rightarrow> game \<Rightarrow> error + game" where
  "game_loop a [] g = Inr g"
| "game_loop a (ds # fs) g =
     (if running g
      then (case frame a ds g of Inl e \<Rightarrow> Inl e | Inr g' \<Rightarrow> game_loop a fs g')
      else Inr g)"

definition no_enemy :: Enemy where
  "no_enemy = \<lparr>rect = \<lparr>rect_x = 0, rect_y = 0, rect_w = 0, rect_h = 0\<rparr>, speed = 0\<rparr>"

definition no_objs :: "nat \<Rightarrow> Enemy" where
  "no_objs i = no_enemy"

text \<open>The state when the loop is entered, and what \<^verbatim>\<open>main\<close> does after the loop.\<close>

definition init :: "assets \<Rightarrow> game" where
  "init a =
     \<lparr>running = True, player = Player_init (player_image a), objs = no_objs, next_id = 0,
      enemies = [], all_sprites = Group_add PlayerRef [], pressed_keys = None,
      trace = [SetTimer NEW_ENEMY_INTERVAL]\<rparr>"

definition shutdown :: "game \<Rightarrow> game" where
  "shutdown g = g\<lparr>trace := trace g @ [Sleep 3, MusicStop, MixerQuit]\<rparr>"

definition main :: "assets \<Rightarrow> drained list list \<Rightarrow> error + game" where
  "main a fs =
     (case game_loop a fs (init a) of
        Inl e \<Rightarrow> Inl e
      | Inr g \<Rightarrow> Inr (if running g then g else shutdown g))"

section \<open>Notions used to state the properties\<close>

text \<open>The enemy after one call of \<^verbatim>\<open>update()\<close>, and whether a sprite of the obstacle group
  leaves the groups in the next update pass.\<close>

definition moved :: "Enemy \<Rightarrow> Enemy" where
  "moved e = fst (Enemy_update e)"

definition leaves :: "game \<Rightarrow> sprite_ref \<Rightarrow> bool" where
  "leaves g s =
     (case s of PlayerRef \<Rightarrow> False | EnemyRef i \<Rightarrow> rect_right (rect (moved (objs g i))) < 0)"

text \<open>The registry invariant of the specification: every member of the obstacle set is
  in the render set, and the player is not in the obstacle set.\<close>

definition registry_inv :: "game \<Rightarrow> bool" where
  "registry_inv g \<longleftrightarrow> set (enemies g) \<subseteq> set (all_sprites g) \<and> PlayerRef \<notin> set (enemies g)"

text \<open>The groups are well formed: no member twice, the obstacle set is the render set
  without the player, and every enemy in a group has been constructed.\<close>

definition groups_ok :: "game \<Rightarrow> bool" where
  "groups_ok g \<longleftrightarrow>
     distinct (enemies g) \<and> distinct (all_sprites g)
     \<and> set (enemies g) = set (all_sprites g) - {PlayerRef}
     \<and> (\<forall>i. EnemyRef i \<in> set (all_sprites g) \<longrightarrow> i < next_id g)"

text \<open>The states at the head of the loop of \<^verbatim>\<open>main\<close>.\<close>

inductive reachable :: "assets \<Rightarrow> game \<Rightarrow> bool" for a :: assets where
  start: "reachable a (init a)"
| step: "reachable a g \<Longrightarrow> running g \<Longrightarrow> frame a ds g = Inr g' \<Longrightarrow> reachable a g'"

subsection \<open>Concrete inputs\<close>

text \<open>Key snapshots, image sizes and drained events used to exercise the theorems.\<close>

definition no_keys :: pressed where
  "no_keys k = False"

definition all_keys :: pressed where
  "all_keys k = True"

definition left_and_right :: pressed where
  "left_and_right k = (k = K_LEFT \<or> k = K_RIGHT)"

definition near_corner :: Player where
  "near_corner = \<lparr>rect = \<lparr>rect_x = 790, rect_y = 590, rect_w = 75, rect_h = 25\<rparr>\<rparr>"

definition far_right :: Player where
  "far_right = \<lparr>rect = \<lparr>rect_x = 2147483645, rect_y = 0, rect_w = 75, rect_h = 25\<rparr>\<rparr>"

definition oversized :: Player where
  "oversized = \<lparr>rect = \<lparr>rect_x = - 50, rect_y = - 30, rect_w = 1000, rect_h = 700\<rparr>\<rparr>"

definition small_images :: assets where
  "small_images = \<lparr>player_image = (75, 25), enemy_image = (20, 10)\<rparr>"

definition spawn_tick :: drained where
  "spawn_tick = \<lparr>event = ADD_ENEMY, held = no_keys, draws = (820, 300, 10)\<rparr>"

definition window_closed :: drained where
  "window_closed = \<lparr>event = QUIT, held = no_keys, draws = (0, 0, 0)\<rparr>"

definition wide_player :: assets where
  "wide_player = \<lparr>player_image = (790, 25), enemy_image = (20, 10)\<rparr>"

definition fast_spawn :: drained where
  "fast_spawn = \<lparr>event = ADD_ENEMY, held = no_keys, draws = (820, 10, 20)\<rparr>"

definition right_pressed :: drained where
  "right_pressed = \<lparr>event = KEYDOWN K_RIGHT, held = left_and_right, draws = (0, 0, 0)\<rparr>"

text \<open>A state in which an enemy overlaps the player, and one in which enemy 0 is about to
  leave the screen while enemy 1 is in the middle of it.\<close>

definition player_hit :: game where
  "player_hit = (init small_images)
     \<lparr>objs := no_objs(0 := \<lparr>rect = \<lparr>rect_x = 70, rect_y = 10, rect_w = 20, rect_h = 10\<rparr>, speed = 5\<rparr>),
      next_id := 1, enemies := [EnemyRef 0], all_sprites := [PlayerRef, EnemyRef 0],
      pressed_keys := Some no_keys\<rparr>"

definition two_enemies :: game where
  "two_enemies = (init small_images)
     \<lparr>objs := no_objs
        (0 := \<lparr>rect = \<lparr>rect_x = - 15, rect_y = 100, rect_w = 20, rect_h = 10\<rparr>, speed = 10\<rparr>,
         1 := \<lparr>rect = \<lparr>rect_x = 400, rect_y = 200, rect_w = 20, rect_h = 10\<rparr>, speed = 5\<rparr>),
      next_id := 2, enemies := [EnemyRef 0, EnemyRef 1],
      all_sprites := [PlayerRef, EnemyRef 0, EnemyRef 1], pressed_keys := Some no_keys\<rparr>"

section \<open>Rectangles, Player and Enemy\<close>

lemmas rect_defs = rect_left_def rect_right_def rect_top_def rect_bottom_def
  set_left_def set_top_def move_ip_def

lemmas clamp_defs = clamp_left_def clamp_right_def clamp_top_def clamp_bottom_def

lemma Enemy_update_moved: "Enemy_update e = (moved e, rect_right (rect (moved e)) < 0)"
  by (simp add: moved_def Enemy_update_def Let_def)

lemma moved_fields:
  "rect (moved e) = move_ip (rect e) (- speed e) 0" "speed (moved e) = speed e"
  by (simp_all add: moved_def Enemy_update_def Let_def)

subsection \<open>C arithmetic in \<^verbatim>\<open>Player.update\<close>\<close>

lemma c_int_id: "INT_MIN \<le> v \<Longrightarrow> v \<le> INT_MAX \<Longrightarrow> c_int v = v"
  by (simp add: c_int_def INT_MIN_def INT_MAX_def)

lemma c_int_range: "INT_MIN \<le> c_int v \<and> c_int v \<le> INT_MAX"
  by (simp add: c_int_def INT_MIN_def INT_MAX_def)

lemma clamp_horizontal:
  assumes "INT_MIN \<le> rect_x r" "0 \<le> rect_w r" "rect_w r \<le> INT_MAX"
    "rect_x r + rect_w r \<le> INT_MAX"
  shows "(rect_w r \<le> SCREEN_WIDTH \<longrightarrow>
            0 \<le> rect_x (clamp_right (clamp_left r))
            \<and> rect_x (clamp_right (clamp_left r)) + rect_w r \<le> SCREEN_WIDTH)
       \<and> (SCREEN_WIDTH < rect_w r \<longrightarrow>
            rect_x (clamp_right (clamp_left r)) = SCREEN_WIDTH - rect_w r)
       \<and> c_right (clamp_right (clamp_left r))
            = rect_x (clamp_right (clamp_left r)) + rect_w r
       \<and> rect_w (clamp_right (clamp_left r)) = rect_w r
       \<and> rect_y (clamp_right (clamp_left r)) = rect_y r
       \<and> rect_h (clamp_right (clamp_left r)) = rect_h r"
proof -
  have w: "c_int (rect_w r) = rect_w r"
    using assms by (intro c_int_id) (simp_all add: INT_MIN_def)
  have xw: "0 \<le> rect_x r \<Longrightarrow> c_int (rect_x r + rect_w r) = rect_x r + rect_w r"
    using assms by (intro c_int_id) (simp_all add: INT_MIN_def)
  have s: "c_int (SCREEN_WIDTH - rect_w r) = SCREEN_WIDTH - rect_w r"
    using assms by (intro c_int_id) (simp_all add: INT_MIN_def INT_MAX_def SCREEN_WIDTH_def)
  have sw: "c_int SCREEN_WIDTH = SCREEN_WIDTH"
    by (intro c_int_id) (simp_all add: INT_MIN_def INT_MAX_def SCREEN_WIDTH_def)
  show ?thesis
    using assms
    by (cases "rect_x r < 0")
      (auto simp: clamp_left_def clamp_right_def rect_left_def set_left_def c_right_def
        c_set_right_def w xw s sw)
qed

lemma clamp_vertical:
  assumes "INT_MIN \<le> rect_y r" "0 \<le> rect_h r" "rect_h r \<le> INT_MAX"
    "rect_y r + rect_h r \<le> INT_MAX"
  shows "(rect_h r \<le> SCREEN_HEIGHT \<longrightarrow>
            0 \<le> rect_y (clamp_bottom (clamp_top r))
            \<and> rect_y (clamp_bottom (clamp_top r)) + rect_h r \<le> SCREEN_HEIGHT)
       \<and> (SCREEN_HEIGHT < rect_h r \<longrightarrow>
            rect_y (clamp_bottom (clamp_top r)) = SCREEN_HEIGHT - rect_h r)
       \<and> c_bottom (clamp_bottom (clamp_top r))
            = rect_y (clamp_bottom (clamp_top r)) + rect_h r
       \<and> rect_h (clamp_bottom (clamp_top r)) = rect_h r
       \<and> rect_x (clamp_bottom (clamp_top r)) = rect_x r
       \<and> rect_w (clamp_bottom (clamp_top r)) = rect_w r"
proof -
  have h: "c_int (rect_h r) = rect_h r"
    using assms by (intro c_int_id) (simp_all add: INT_MIN_def)
  have yh: "0 \<le> rect_y r \<Longrightarrow> c_int (rect_y r + rect_h r) = rect_y r + rect_h r"
    using assms by (intro c_int_id) (simp_all add: INT_MIN_def)
  have s: "c_int (SCREEN_HEIGHT - rect_h r) = SCREEN_HEIGHT - rect_h r"
    using assms by (intro c_int_id) (simp_all add: INT_MIN_def INT_MAX_def SCREEN_HEIGHT_def)
  have sh: "c_int SCREEN_HEIGHT = SCREEN_HEIGHT"
    by (intro c_int_id) (simp_all add: INT_MIN_def INT_MAX_def SCREEN_HEIGHT_def)
  have z: "c_int 0 = 0" by (simp add: c_int_def)
  show ?thesis
    using assms
    by (cases "rect_y r \<le> 0")
      (auto simp: clamp_top_def clamp_bottom_def rect_top_def set_top_def c_bottom_def
        c_set_bottom_def h yh s sh z)
qed

lemma Player_update_rect:
  "rect (Player_update ks p) =
     clamp_bottom (clamp_top (clamp_right (clamp_left
       (c_move_ip (rect p) (fst (key_offset ks)) (snd (key_offset ks))))))"
  by (simp add: Player_update_def Let_def split: prod.splits)

text \<open>
  C2. Whatever keys are held, when the right and bottom edges of the moved rectangle are
  representable as C ints (which they are for every rectangle on or near the screen),
  after \<^verbatim>\<open>Player.update\<close> a rectangle that fits the screen, in particular one of 75
  by 25 pixels, has its left and right edges between 0 and \<open>SCREEN_WIDTH\<close> and its top
  and bottom edges between 0 and \<open>SCREEN_HEIGHT\<close>. The rectangle is the moved one clamped
  at the left, then the right, then the top, then the bottom edge: for a rectangle
  wider than the screen the right clamp has the last word (the right edge is at
  \<open>SCREEN_WIDTH\<close> and the left edge is negative), and for one taller than the screen
  the bottom clamp has. The edges read in C arithmetic are then the exact ones.
\<close>

theorem Player_update_within_screen:
  assumes "0 \<le> rect_w (rect p)" "rect_w (rect p) \<le> INT_MAX"
    and "0 \<le> rect_h (rect p)" "rect_h (rect p) \<le> INT_MAX"
    and "c_int (rect_x (rect p) + fst (key_offset ks)) + rect_w (rect p) \<le> INT_MAX"
    and "c_int (rect_y (rect p) + snd (key_offset ks)) + rect_h (rect p) \<le> INT_MAX"
  shows "(rect_w (rect p) \<le> SCREEN_WIDTH \<and> rect_h (rect p) \<le> SCREEN_HEIGHT \<longrightarrow>
            0 \<le> rect_left (rect (Player_update ks p))
          \<and> rect_left (rect (Player_update ks p)) \<le> SCREEN_WIDTH
          \<and> 0 \<le> c_right (rect (Player_update ks p))
          \<and> c_right (rect (Player_update ks p)) \<le> SCREEN_WIDTH
          \<and> 0 \<le> rect_top (rect (Player_update ks p))
          \<and> rect_top (rect (Player_update ks p)) \<le> SCREEN_HEIGHT
          \<and> 0 \<le> c_bottom (rect (Player_update ks p))
          \<and> c_bottom (rect (Player_update ks p)) \<le> SCREEN_HEIGHT)
       \<and> (SCREEN_WIDTH < rect_w (rect p) \<longrightarrow>
            c_right (rect (Player_update ks p)) = SCREEN_WIDTH
          \<and> rect_left (rect (Player_update ks p)) = SCREEN_WIDTH - rect_w (rect p))
       \<and> (SCREEN_HEIGHT < rect_h (rect p) \<longrightarrow>
            c_bottom (rect (Player_update ks p)) = SCREEN_HEIGHT
          \<and> rect_top (rect (Player_update ks p)) = SCREEN_HEIGHT - rect_h (rect p))
       \<and> c_right (rect (Player_update ks p)) = rect_right (rect (Player_update ks p))
       \<and> c_bottom (rect (Player_update ks p)) = rect_bottom (rect (Player_update ks p))
       \<and> rect (Player_update ks p) =
           clamp_bottom (clamp_top (clamp_right (clamp_left
             (c_move_ip (rect p) (fst (key_offset ks)) (snd (key_offset ks))))))"
proof -
  define m where "m = c_move_ip (rect p) (fst (key_offset ks)) (snd (key_offset ks))"
  define h where "h = clamp_right (clamp_left m)"
  define r where "r = clamp_bottom (clamp_top h)"
  have r: "rect (Player_update ks p) = r"
    by (simp add: Player_update_rect r_def h_def m_def)
  have m: "rect_x m = c_int (rect_x (rect p) + fst (key_offset ks))"
    "rect_y m = c_int (rect_y (rect p) + snd (key_offset ks))"
    "rect_w m = rect_w (rect p)" "rect_h m = rect_h (rect p)"
    by (simp_all add: m_def c_move_ip_def)
  have mx: "INT_MIN \<le> rect_x m" "rect_x m + rect_w m \<le> INT_MAX"
    "0 \<le> rect_w m" "rect_w m \<le> INT_MAX"
    using assms c_int_range[of "rect_x (rect p) + fst (key_offset ks)"] by (simp_all add: m)
  note hz = clamp_horizontal[OF mx(1,3,4,2), folded h_def, unfolded m]
  have hy: "INT_MIN \<le> rect_y h" "rect_y h + rect_h h \<le> INT_MAX"
    "0 \<le> rect_h h" "rect_h h \<le> INT_MAX"
    using assms c_int_range[of "rect_y (rect p) + snd (key_offset ks)"] hz by (simp_all add: m)
  note vt = clamp_vertical[OF hy(1,3,4,2), folded r_def]
  have wh: "rect_w h = rect_w (rect p)" "rect_h h = rect_h (rect p)"
    using hz by simp_all
  have xr: "rect_x r = rect_x h" "rect_w r = rect_w (rect p)" "rect_h r = rect_h (rect p)"
    using vt wh by simp_all
  have "c_right h = rect_x h + rect_w (rect p)"
    using hz by blast
  moreover have "c_right r = c_right h"
    by (simp add: c_right_def xr wh)
  ultimately have cr: "c_right r = rect_x r + rect_w (rect p)"
    by (simp add: xr)
  have cb: "c_bottom r = rect_y r + rect_h (rect p)"
    using vt wh by simp
  have fit_x: "0 \<le> rect_x r \<and> rect_x r + rect_w (rect p) \<le> SCREEN_WIDTH"
    if "rect_w (rect p) \<le> SCREEN_WIDTH"
    using hz that xr by simp
  have fit_y: "0 \<le> rect_y r \<and> rect_y r + rect_h (rect p) \<le> SCREEN_HEIGHT"
    if "rect_h (rect p) \<le> SCREEN_HEIGHT"
    using vt that wh by simp
  have wide: "rect_x r = SCREEN_WIDTH - rect_w (rect p)" if "SCREEN_WIDTH < rect_w (rect p)"
    using hz that xr by simp
  have tall: "rect_y r = SCREEN_HEIGHT - rect_h (rect p)" if "SCREEN_HEIGHT < rect_h (rect p)"
    using vt that wh by simp
  have 1: "0 \<le> rect_left r \<and> rect_left r \<le> SCREEN_WIDTH
      \<and> 0 \<le> c_right r \<and> c_right r \<le> SCREEN_WIDTH
      \<and> 0 \<le> rect_top r \<and> rect_top r \<le> SCREEN_HEIGHT
      \<and> 0 \<le> c_bottom r \<and> c_bottom r \<le> SCREEN_HEIGHT"
    if "rect_w (rect p) \<le> SCREEN_WIDTH \<and> rect_h (rect p) \<le> SCREEN_HEIGHT"
    using fit_x fit_y that assms(1,3) by (simp add: cr cb rect_left_def rect_top_def)
  have 2: "c_right r = SCREEN_WIDTH \<and> rect_left r = SCREEN_WIDTH - rect_w (rect p)"
    if "SCREEN_WIDTH < rect_w (rect p)"
    using wide[OF that] by (simp add: cr rect_left_def)
  have 3: "c_bottom r = SCREEN_HEIGHT \<and> rect_top r = SCREEN_HEIGHT - rect_h (rect p)"
    if "SCREEN_HEIGHT < rect_h (rect p)"
    using tall[OF that] by (simp add: cb rect_top_def)
  have 4: "c_right r = rect_right r" "c_bottom r = rect_bottom r"
    by (simp_all add: cr cb xr rect_right_def rect_bottom_def)
  have 5: "r = clamp_bottom (clamp_top (clamp_right (clamp_left
             (c_move_ip (rect p) (fst (key_offset ks)) (snd (key_offset ks))))))"
    by (simp add: r_def h_def m_def)
  show ?thesis
    unfolding r using 1 2 3 4 5 by blast
qed

theorem Player_update_within_screen_witness:
  "0 \<le> rect_w (rect near_corner) \<and> rect_w (rect near_corner) \<le> INT_MAX
   \<and> 0 \<le> rect_h (rect near_corner) \<and> rect_h (rect near_corner) \<le> INT_MAX
   \<and> c_int (rect_x (rect near_corner) + fst (key_offset all_keys)) + rect_w (rect near_corner)
       \<le> INT_MAX
   \<and> c_int (rect_y (rect near_corner) + snd (key_offset all_keys)) + rect_h (rect near_corner)
       \<le> INT_MAX
   \<and> rect_w (rect near_corner) \<le> SCREEN_WIDTH \<and> rect_h (rect near_corner) \<le> SCREEN_HEIGHT
   \<and> rect (Player_update all_keys near_corner)
       = \<lparr>rect_x = 725, rect_y = 575, rect_w = 75, rect_h = 25\<rparr>
   \<and> 0 \<le> rect_left (rect (Player_update all_keys near_corner))
   \<and> c_right (rect (Player_update all_keys near_corner)) \<le> SCREEN_WIDTH
   \<and> 0 \<le> rect_top (rect (Player_update all_keys near_corner))
   \<and> c_bottom (rect (Player_update all_keys near_corner)) \<le> SCREEN_HEIGHT
   \<and> 0 \<le> rect_w (rect oversized) \<and> rect_w (rect oversized) \<le> INT_MAX
   \<and> 0 \<le> rect_h (rect oversized) \<and> rect_h (rect oversized) \<le> INT_MAX
   \<and> c_int (rect_x (rect oversized) + fst (key_offset all_keys)) + rect_w (rect oversized)
       \<le> INT_MAX
   \<and> c_int (rect_y (rect oversized) + snd (key_offset all_keys)) + rect_h (rect oversized)
       \<le> INT_MAX
   \<and> SCREEN_WIDTH < rect_w (rect oversized) \<and> SCREEN_HEIGHT < rect_h (rect oversized)
   \<and> c_right (rect (Player_update all_keys oversized)) = SCREEN_WIDTH
   \<and> rect_left (rect (Player_update all_keys oversized)) = - 200
   \<and> c_bottom (rect (Player_update all_keys oversized)) = SCREEN_HEIGHT
   \<and> rect_top (rect (Player_update all_keys oversized)) = - 100"
proof -
  have n: "0 \<le> rect_w (rect near_corner)" "rect_w (rect near_corner) \<le> INT_MAX"
    "0 \<le> rect_h (rect near_corner)" "rect_h (rect near_corner) \<le> INT_MAX"
    "c_int (rect_x (rect near_corner) + fst (key_offset all_keys)) + rect_w (rect near_corner)
       \<le> INT_MAX"
    "c_int (rect_y (rect near_corner) + snd (key_offset all_keys)) + rect_h (rect near_corner)
       \<le> INT_MAX"
    by code_simp+
  have nf: "rect_w (rect near_corner) \<le> SCREEN_WIDTH \<and> rect_h (rect near_corner) \<le> SCREEN_HEIGHT"
    by code_simp
  have ne: "rect (Player_update all_keys near_corner)
      = \<lparr>rect_x = 725, rect_y = 575, rect_w = 75, rect_h = 25\<rparr>"
    by code_simp
  have v: "0 \<le> rect_w (rect oversized)" "rect_w (rect oversized) \<le> INT_MAX"
    "0 \<le> rect_h (rect oversized)" "rect_h (rect oversized) \<le> INT_MAX"
    "c_int (rect_x (rect oversized) + fst (key_offset all_keys)) + rect_w (rect oversized)
       \<le> INT_MAX"
    "c_int (rect_y (rect oversized) + snd (key_offset all_keys)) + rect_h (rect oversized)
       \<le> INT_MAX"
    by code_simp+
  have vf: "SCREEN_WIDTH < rect_w (rect oversized)" "SCREEN_HEIGHT < rect_h (rect oversized)"
    "SCREEN_WIDTH - rect_w (rect oversized) = - 200"
    "SCREEN_HEIGHT - rect_h (rect oversized) = - 100"
    by code_simp+
  from Player_update_within_screen[OF n] nf
  have nb: "0 \<le> rect_left (rect (Player_update all_keys near_corner))"
    "c_right (rect (Player_update all_keys near_corner)) \<le> SCREEN_WIDTH"
    "0 \<le> rect_top (rect (Player_update all_keys near_corner))"
    "c_bottom (rect (Player_update all_keys near_corner)) \<le> SCREEN_HEIGHT"
    by blast+
  from Player_update_within_screen[OF v] vf(1,2)
  have vb: "c_right (rect (Player_update all_keys oversized)) = SCREEN_WIDTH"
    "rect_left (rect (Player_update all_keys oversized)) = SCREEN_WIDTH - rect_w (rect oversized)"
    "c_bottom (rect (Player_update all_keys oversized)) = SCREEN_HEIGHT"
    "rect_top (rect (Player_update all_keys oversized)) = SCREEN_HEIGHT - rect_h (rect oversized)"
    by blast+
  from n nf ne nb v vf(1,2) vb[unfolded vf(3,4)] show ?thesis by blast
qed

text \<open>A rectangle of the player's size whose right edge is not representable: its
  \<^verbatim>\<open>rect.right\<close> reads negative, no clamp fires, and it stays where it is, far to the
  right of the screen.\<close>

theorem Player_update_wraps_counterexample:
  "rect_w (rect far_right) = 75 \<and> rect_h (rect far_right) = 25
   \<and> INT_MIN \<le> rect_x (rect far_right) \<and> rect_x (rect far_right) \<le> INT_MAX
   \<and> rect (Player_update no_keys far_right) = rect far_right
   \<and> c_right (rect (Player_update no_keys far_right)) = - 2147483576
   \<and> \<not> rect_left (rect (Player_update no_keys far_right)) \<le> SCREEN_WIDTH
   \<and> \<not> 0 \<le> c_right (rect (Player_update no_keys far_right))"
  by code_simp

text \<open>
  C3. An enemy constructed with speed \<open>s\<close> keeps that speed, and after \<open>k\<close> calls of
  \<^verbatim>\<open>update()\<close> its x-position is its spawn x-position minus \<open>s * k\<close> while its
  y-position and its size are those it was spawned with.
\<close>

theorem Enemy_updates_position:
  "rect_x (rect (Enemy_updates k (Enemy_init img x y s)))
     = rect_x (rect (Enemy_init img x y s)) - s * int k
   \<and> rect_y (rect (Enemy_updates k (Enemy_init img x y s)))
     = rect_y (rect (Enemy_init img x y s))
   \<and> speed (Enemy_updates k (Enemy_init img x y s)) = s
   \<and> rect_w (rect (Enemy_updates k (Enemy_init img x y s))) = fst img
   \<and> rect_h (rect (Enemy_updates k (Enemy_init img x y s))) = snd img"
proof -
  have "rect_x (rect (Enemy_updates k e)) = rect_x (rect e) - speed e * int k
      \<and> rect_y (rect (Enemy_updates k e)) = rect_y (rect e)
      \<and> speed (Enemy_updates k e) = speed e
      \<and> rect_w (rect (Enemy_updates k e)) = rect_w (rect e)
      \<and> rect_h (rect (Enemy_updates k e)) = rect_h (rect e)" for e
    by (induction k)
      (auto simp: Enemy_updates_def Enemy_update_def move_ip_def Let_def algebra_simps)
  from this [of "Enemy_init img x y s"] show ?thesis
    by (simp add: Enemy_init_def get_rect_center_def set_center_def get_rect_def)
qed

text \<open>
  C5. \<^verbatim>\<open>colliderect\<close> is the intersection test of half-open rectangles: it holds exactly
  when the two boxes share a pixel, so rectangles that only touch do not collide. The
  rectangle (0, 0, 75, 25) collides with (70, 10, 20, 10) and not with (75, 10, 20, 10),
  also when the test is made through \<^verbatim>\<open>spritecollideany\<close> on the player and one enemy.
\<close>

theorem colliderect_half_open:
  "colliderect A B = half_open_overlap A B
   \<and> colliderect \<lparr>rect_x = 0, rect_y = 0, rect_w = 75, rect_h = 25\<rparr>
        \<lparr>rect_x = 70, rect_y = 10, rect_w = 20, rect_h = 10\<rparr>
   \<and> \<not> colliderect \<lparr>rect_x = 0, rect_y = 0, rect_w = 75, rect_h = 25\<rparr>
        \<lparr>rect_x = 75, rect_y = 10, rect_w = 20, rect_h = 10\<rparr>
   \<and> spritecollideany PlayerRef [EnemyRef 0]
        (g\<lparr>player := \<lparr>rect = \<lparr>rect_x = 0, rect_y = 0, rect_w = 75, rect_h = 25\<rparr>\<rparr>,
           objs := (objs g)(0 := \<lparr>rect = \<lparr>rect_x = 70, rect_y = 10, rect_w = 20, rect_h = 10\<rparr>,
                                  speed = 5\<rparr>)\<rparr>) = Some (EnemyRef 0)
   \<and> spritecollideany PlayerRef [EnemyRef 0]
        (g\<lparr>player := \<lparr>rect = \<lparr>rect_x = 0, rect_y = 0, rect_w = 75, rect_h = 25\<rparr>\<rparr>,
           objs := (objs g)(0 := \<lparr>rect = \<lparr>rect_x = 75, rect_y = 10, rect_w = 20, rect_h = 10\<rparr>,
                                  speed = 5\<rparr>)\<rparr>) = None"
proof -
  have "colliderect A B = half_open_overlap A B"
    unfolding colliderect_def half_open_overlap_def half_open_box_def
    by (auto simp: Times_Int_Times min_def max_def)
  then show ?thesis
    by (simp add: colliderect_def spritecollideany_def sprite_rect_def)
qed

text \<open>
  C7. The class attributes of Player are 75 and 25, but the constructor does not use
  them: the rectangle of a new Player is at (0, 0) and has the size of the loaded sprite
  image. It is (0, 0, 75, 25) when the image is 75 by 25 pixels.
\<close>

theorem Player_init_rect:
  "Player_width = 75 \<and> Player_height = 25
   \<and> rect (Player_init (w, h)) = \<lparr>rect_x = 0, rect_y = 0, rect_w = w, rect_h = h\<rparr>
   \<and> rect (Player_init (75, 25)) = \<lparr>rect_x = 0, rect_y = 0, rect_w = 75, rect_h = 25\<rparr>
   \<and> player (init a) = Player_init (player_image a)"
  by (simp add: Player_width_def Player_height_def Player_init_def get_rect_def init_def)

text \<open>With a sprite image of 64 by 64 pixels the rectangle of a new Player is not
  (0, 0, 75, 25).\<close>

theorem Player_init_rect_counterexample:
  "rect (Player_init (64, 64)) \<noteq> \<lparr>rect_x = 0, rect_y = 0, rect_w = Player_width, rect_h = Player_height\<rparr>
   \<and> rect_w (rect (Player_init (64, 64))) \<noteq> 75
   \<and> rect_h (rect (Player_init (64, 64))) \<noteq> 25"
  by (simp add: Player_width_def Player_height_def Player_init_def get_rect_def)

text \<open>
  C8. The class attributes of Enemy are 20 and 10, but a new Enemy has the size of the
  loaded sprite image, and the two values drawn for its position are the centre of its
  rectangle: its top-left corner is (x - w div 2, y - h div 2). Its speed is the third
  value drawn. The event loop stores exactly this enemy when it spawns one.
\<close>

theorem Enemy_init_rect:
  "Enemy_width = 20 \<and> Enemy_height = 10
   \<and> rect (Enemy_init (w, h) x y s)
       = \<lparr>rect_x = x - w div 2, rect_y = y - h div 2, rect_w = w, rect_h = h\<rparr>
   \<and> rect_centerx (rect (Enemy_init (w, h) x y s)) = x
   \<and> rect_centery (rect (Enemy_init (w, h) x y s)) = y
   \<and> speed (Enemy_init (w, h) x y s) = s
   \<and> objs (spawn_enemy a (x, y, s) g) (next_id g) = Enemy_init (enemy_image a) x y s"
  by (simp add: Enemy_width_def Enemy_height_def Enemy_init_def get_rect_center_def
      set_center_def get_rect_def rect_centerx_def rect_centery_def spawn_enemy_def Let_def)

text \<open>Even with an image of 20 by 10 pixels, the draws x = 820 and y = 0 (both in range)
  give a rectangle at (810, -5), not at (820, 0); and with an image of 32 by 16 pixels
  the enemy is not 20 by 10.\<close>

theorem Enemy_init_rect_counterexample:
  "randint_ok (820, 0, 5)
   \<and> rect_x (rect (Enemy_init (20, 10) 820 0 5)) = 810
   \<and> rect_y (rect (Enemy_init (20, 10) 820 0 5)) = - 5
   \<and> rect_x (rect (Enemy_init (20, 10) 820 0 5)) \<noteq> 820
   \<and> rect_y (rect (Enemy_init (20, 10) 820 0 5)) \<noteq> 0
   \<and> rect_w (rect (Enemy_init (32, 16) 820 0 5)) \<noteq> Enemy_width
   \<and> rect_h (rect (Enemy_init (32, 16) 820 0 5)) \<noteq> Enemy_height"
  by (simp add: randint_ok_def SCREEN_WIDTH_def SCREEN_HEIGHT_def Enemy_init_def
      get_rect_center_def set_center_def get_rect_def Enemy_width_def Enemy_height_def)

section \<open>The update pass over the obstacle group\<close>

lemma Group_update_EnemyRef:
  "Group_update (EnemyRef i # rs) g =
     Group_update rs
       (if leaves g (EnemyRef i)
        then kill (EnemyRef i) (g\<lparr>objs := (objs g)(i := moved (objs g i))\<rparr>)
        else g\<lparr>objs := (objs g)(i := moved (objs g i))\<rparr>)"
  by (simp add: Enemy_update_moved leaves_def)

text \<open>One pass of \<^verbatim>\<open>Group.update()\<close> over a snapshot without repetitions moves every
  enemy of the snapshot once and drops from both groups those whose right edge has
  become negative.\<close>

lemma Group_update_result:
  "distinct rs \<Longrightarrow> PlayerRef \<notin> set rs \<Longrightarrow>
   Group_update rs g = Inr (g\<lparr>
     objs := (\<lambda>i. if EnemyRef i \<in> set rs then moved (objs g i) else objs g i),
     enemies := filter (\<lambda>s. \<not> (s \<in> set rs \<and> leaves g s)) (enemies g),
     all_sprites := filter (\<lambda>s. \<not> (s \<in> set rs \<and> leaves g s)) (all_sprites g)\<rparr>)"
proof (induction rs arbitrary: g)
  case Nil
  then show ?case by simp
next
  case (Cons r rs)
  show ?case
  proof (cases r)
    case PlayerRef
    with Cons.prems show ?thesis by simp
  next
    case (EnemyRef i)
    let ?g1 = "g\<lparr>objs := (objs g)(i := moved (objs g i))\<rparr>"
    let ?g2 = "if leaves g r then kill r ?g1 else ?g1"
    have d: "distinct rs" "PlayerRef \<notin> set rs" "r \<notin> set rs"
      using Cons.prems by auto
    have step: "Group_update (r # rs) g = Group_update rs ?g2"
      unfolding EnemyRef Group_update_EnemyRef ..
    have lv: "\<And>s. s \<in> set rs \<Longrightarrow> leaves ?g2 s = leaves g s"
      using d(3) by (auto simp: leaves_def kill_def EnemyRef split: sprite_ref.splits)
    have f: "\<And>xs. filter (\<lambda>s. \<not> (s \<in> set rs \<and> leaves ?g2 s)) xs
               = filter (\<lambda>s. \<not> (s \<in> set rs \<and> leaves g s)) xs"
      using lv by (intro filter_cong) auto
    have o: "(\<lambda>j. if EnemyRef j \<in> set rs then moved (objs ?g2 j) else objs ?g2 j)
           = (\<lambda>j. if EnemyRef j \<in> set (r # rs) then moved (objs g j) else objs g j)"
      using d(3) by (auto simp: fun_eq_iff kill_def EnemyRef)
    have e: "filter (\<lambda>s. \<not> (s \<in> set rs \<and> leaves g s)) (enemies ?g2)
           = filter (\<lambda>s. \<not> (s \<in> set (r # rs) \<and> leaves g s)) (enemies g)"
      by (cases "leaves g r")
        (auto simp: kill_def Group_remove_def removeAll_filter_not_eq
          intro!: filter_cong[OF refl])
    have a: "filter (\<lambda>s. \<not> (s \<in> set rs \<and> leaves g s)) (all_sprites ?g2)
           = filter (\<lambda>s. \<not> (s \<in> set (r # rs) \<and> leaves g s)) (all_sprites g)"
      by (cases "leaves g r")
        (auto simp: kill_def Group_remove_def removeAll_filter_not_eq
          intro!: filter_cong[OF refl])
    have "?g2\<lparr>objs := F, enemies := E, all_sprites := A\<rparr>
        = g\<lparr>objs := F, enemies := E, all_sprites := A\<rparr>" for F E A
      by (cases "leaves g r") (simp_all add: kill_def)
    then show ?thesis
      unfolding step Cons.IH[OF d(1,2)] f o e a by simp
  qed
qed

text \<open>Whatever the snapshot, a pass that returns has touched only the enemies and the
  groups.\<close>

lemma Group_update_keeps:
  "Group_update rs g = Inr g' \<Longrightarrow>
   running g' = running g \<and> player g' = player g \<and> next_id g' = next_id g
   \<and> pressed_keys g' = pressed_keys g \<and> trace g' = trace g"
proof (induction rs arbitrary: g)
  case Nil
  then show ?case by simp
next
  case (Cons r rs)
  show ?case
  proof (cases r)
    case PlayerRef
    with Cons.prems show ?thesis by simp
  next
    case (EnemyRef i)
    let ?g1 = "g\<lparr>objs := (objs g)(i := moved (objs g i))\<rparr>"
    let ?g2 = "if leaves g r then kill r ?g1 else ?g1"
    have "Group_update rs ?g2 = Inr g'"
      using Cons.prems unfolding EnemyRef Group_update_EnemyRef .
    from Cons.IH[OF this] show ?thesis by (simp add: kill_def split: if_splits)
  qed
qed

lemma update_enemies_keeps:
  "update_enemies g = Inr g' \<Longrightarrow>
   running g' = running g \<and> player g' = player g \<and> next_id g' = next_id g
   \<and> pressed_keys g' = pressed_keys g \<and> trace g' = trace g"
  unfolding update_enemies_def by (rule Group_update_keeps)

lemma update_enemies_result:
  assumes "distinct (enemies g)" "PlayerRef \<notin> set (enemies g)"
  shows "update_enemies g = Inr (g\<lparr>
     objs := (\<lambda>i. if EnemyRef i \<in> set (enemies g) then moved (objs g i) else objs g i),
     enemies := filter (\<lambda>s. \<not> leaves g s) (enemies g),
     all_sprites := filter (\<lambda>s. \<not> (s \<in> set (enemies g) \<and> leaves g s)) (all_sprites g)\<rparr>)"
proof -
  have "filter (\<lambda>s. \<not> (s \<in> set (enemies g) \<and> leaves g s)) (enemies g)
      = filter (\<lambda>s. \<not> leaves g s) (enemies g)"
    by (rule filter_cong[OF refl]) simp
  then show ?thesis
    unfolding update_enemies_def Group_update_result[OF assms] by simp
qed

lemma update_enemies_total:
  assumes "groups_ok g"
  shows "update_enemies g = Inr (g\<lparr>
     objs := (\<lambda>i. if EnemyRef i \<in> set (enemies g) then moved (objs g i) else objs g i),
     enemies := filter (\<lambda>s. \<not> leaves g s) (enemies g),
     all_sprites := filter (\<lambda>s. \<not> (s \<in> set (enemies g) \<and> leaves g s)) (all_sprites g)\<rparr>)"
  using assms by (intro update_enemies_result) (auto simp: groups_ok_def)

lemma update_pass_removes:
  assumes ok: "groups_ok g"
  shows "\<exists>g'. update_enemies g = Inr g'
     \<and> (\<forall>i. EnemyRef i \<in> set (enemies g) \<longrightarrow>
           objs g' i = moved (objs g i)
           \<and> (EnemyRef i \<in> set (enemies g') \<longleftrightarrow> 0 \<le> rect_right (rect (objs g' i)))
           \<and> (EnemyRef i \<in> set (all_sprites g') \<longleftrightarrow> 0 \<le> rect_right (rect (objs g' i))))
     \<and> set (enemies g') \<subseteq> set (enemies g) \<and> set (all_sprites g') \<subseteq> set (all_sprites g)"
proof -
  have sub: "set (enemies g) \<subseteq> set (all_sprites g)"
    using ok by (auto simp: groups_ok_def)
  show ?thesis
    unfolding update_enemies_total[OF ok] using sub by (auto simp: leaves_def)
qed

section \<open>Event processing\<close>

lemma process_events_append:
  "process_events a (ds @ es) g = process_events a es (process_events a ds g)"
  by (induction ds arbitrary: g) simp_all

lemma pressed_keys_handle_event: "pressed_keys (handle_event a d g) = Some (held d)"
  by (simp add: handle_event_def Let_def)

lemma running_spawn_enemy: "running (spawn_enemy a d g) = running g"
  by (cases d) (simp add: spawn_enemy_def Let_def)

lemma running_handle_event:
  "running (handle_event a d g) = (running g \<and> \<not> is_quit (event d))"
  by (simp add: handle_event_def Let_def running_spawn_enemy)

lemma running_process_events:
  "running (process_events a ds g) = (running g \<and> (\<forall>d\<in>set ds. \<not> is_quit (event d)))"
  by (induction ds arbitrary: g) (auto simp: running_handle_event)

lemma handle_event_no_spawn:
  "event d \<noteq> ADD_ENEMY \<Longrightarrow>
   enemies (handle_event a d g) = enemies g \<and> all_sprites (handle_event a d g) = all_sprites g
   \<and> objs (handle_event a d g) = objs g \<and> next_id (handle_event a d g) = next_id g"
  by (simp add: handle_event_def Let_def)

lemma handle_event_spawn:
  "event d = ADD_ENEMY \<Longrightarrow>
   enemies (handle_event a d g) = Group_add (EnemyRef (next_id g)) (enemies g)
   \<and> all_sprites (handle_event a d g) = Group_add (EnemyRef (next_id g)) (all_sprites g)
   \<and> objs (handle_event a d g)
       = (objs g)(next_id g := Enemy_init (enemy_image a) (fst (draws d)) (fst (snd (draws d)))
            (snd (snd (draws d))))
   \<and> next_id (handle_event a d g) = Suc (next_id g)"
  by (cases "draws d") (simp add: handle_event_def spawn_enemy_def is_quit_def Let_def)

lemma process_events_no_spawn:
  "\<forall>d\<in>set ds. event d \<noteq> ADD_ENEMY \<Longrightarrow>
   enemies (process_events a ds g) = enemies g
   \<and> all_sprites (process_events a ds g) = all_sprites g
   \<and> objs (process_events a ds g) = objs g \<and> next_id (process_events a ds g) = next_id g"
  by (induction ds arbitrary: g) (simp_all add: handle_event_no_spawn)

lemma process_events_one_spawn:
  "length (filter (\<lambda>d. event d = ADD_ENEMY) ds) = 1 \<Longrightarrow>
   \<exists>d\<in>set ds. event d = ADD_ENEMY
     \<and> enemies (process_events a ds g) = Group_add (EnemyRef (next_id g)) (enemies g)
     \<and> all_sprites (process_events a ds g) = Group_add (EnemyRef (next_id g)) (all_sprites g)
     \<and> objs (process_events a ds g)
       = (objs g)(next_id g := Enemy_init (enemy_image a) (fst (draws d)) (fst (snd (draws d)))
            (snd (snd (draws d))))"
proof (induction ds arbitrary: g)
  case Nil
  then show ?case by simp
next
  case (Cons d ds)
  show ?case
  proof (cases "event d = ADD_ENEMY")
    case True
    with Cons.prems have "\<forall>d\<in>set ds. event d \<noteq> ADD_ENEMY"
      by (simp add: filter_empty_conv)
    from process_events_no_spawn[OF this, of a "handle_event a d g"] True
    show ?thesis by (simp add: handle_event_spawn)
  next
    case False
    with Cons.prems have "length (filter (\<lambda>d. event d = ADD_ENEMY) ds) = 1" by simp
    from Cons.IH[OF this, of "handle_event a d g"] False
    show ?thesis by (auto simp: handle_event_no_spawn)
  qed
qed

text \<open>Event processing only adds enemies constructed during it.\<close>

lemma handle_event_fresh:
  "set (enemies (handle_event a d g)) \<subseteq> set (enemies g) \<union> EnemyRef ` {next_id g..}
   \<and> set (all_sprites (handle_event a d g)) \<subseteq> set (all_sprites g) \<union> EnemyRef ` {next_id g..}
   \<and> next_id g \<le> next_id (handle_event a d g)"
  by (cases "event d = ADD_ENEMY")
     (auto simp: handle_event_no_spawn handle_event_spawn Group_add_def)

lemma process_events_fresh:
  "set (enemies (process_events a ds g)) \<subseteq> set (enemies g) \<union> EnemyRef ` {next_id g..}
   \<and> set (all_sprites (process_events a ds g))
       \<subseteq> set (all_sprites g) \<union> EnemyRef ` {next_id g..}
   \<and> next_id g \<le> next_id (process_events a ds g)"
proof (induction ds arbitrary: g)
  case Nil
  then show ?case by simp
next
  case (Cons d ds)
  let ?h = "handle_event a d g"
  have "EnemyRef ` {next_id ?h..} \<subseteq> EnemyRef ` {next_id g..}"
    using handle_event_fresh[of a d g] by auto
  with Cons.IH[of ?h] handle_event_fresh[of a d g] show ?case
    by (simp del: image_subset_iff)
      (meson le_trans subset_trans sup.mono order_refl le_supI1 le_supI2 le_supI)
qed

section \<open>Well-formed groups are preserved by every phase of a frame\<close>

lemma groups_ok_init: "groups_ok (init a)"
  by (simp add: groups_ok_def init_def Group_add_def)

lemma groups_ok_spawn: "groups_ok g \<Longrightarrow> groups_ok (spawn_enemy a d g)"
  by (cases d) (auto simp: groups_ok_def spawn_enemy_def Group_add_def Let_def less_Suc_eq)

lemma groups_ok_handle_event: "groups_ok g \<Longrightarrow> groups_ok (handle_event a d g)"
proof -
  assume ok: "groups_ok g"
  have 1: "groups_ok (g\<lparr>running := False\<rparr>)"
    using ok by (simp add: groups_ok_def)
  have 2: "groups_ok (h\<lparr>pressed_keys := k\<rparr>)" if "groups_ok h" for h k
    using that by (simp add: groups_ok_def)
  show ?thesis
    unfolding handle_event_def Let_def
    by (intro 2) (simp add: ok 1 groups_ok_spawn)
qed

lemma groups_ok_process_events: "groups_ok g \<Longrightarrow> groups_ok (process_events a ds g)"
  by (induction ds arbitrary: g) (simp_all add: groups_ok_handle_event)

lemma groups_ok_update_player: "groups_ok g \<Longrightarrow> update_player g = Inr g' \<Longrightarrow> groups_ok g'"
  by (auto simp: update_player_def groups_ok_def split: option.splits)

lemma groups_ok_update_enemies:
  assumes "groups_ok g" "update_enemies g = Inr g'"
  shows "groups_ok g'"
proof -
  have g': "g' = g\<lparr>
     objs := (\<lambda>i. if EnemyRef i \<in> set (enemies g) then moved (objs g i) else objs g i),
     enemies := filter (\<lambda>s. \<not> leaves g s) (enemies g),
     all_sprites := filter (\<lambda>s. \<not> (s \<in> set (enemies g) \<and> leaves g s)) (all_sprites g)\<rparr>"
    using assms(2) unfolding update_enemies_total[OF assms(1)] by simp
  show ?thesis
    using assms(1) unfolding g' groups_ok_def by (auto simp: leaves_def)
qed

lemma groups_ok_render: "groups_ok g \<Longrightarrow> groups_ok (render g)"
  by (simp add: groups_ok_def render_def)

lemma groups_ok_check_collision: "groups_ok g \<Longrightarrow> groups_ok (check_collision g)"
  by (auto simp: groups_ok_def check_collision_def kill_def Group_remove_def Let_def
      distinct_removeAll split: option.splits)

lemma groups_ok_present: "groups_ok g \<Longrightarrow> groups_ok (present g)"
  by (simp add: groups_ok_def present_def)

lemma groups_ok_registry_inv: "groups_ok g \<Longrightarrow> registry_inv g"
  by (auto simp: groups_ok_def registry_inv_def)

section \<open>Frames\<close>

lemma frameE:
  assumes "frame a ds g = Inr g'"
  obtains g2 g3 where "update_player (process_events a ds g) = Inr g2"
    "update_enemies g2 = Inr g3" "g' = present (check_collision (render g3))"
  using assms by (auto simp: frame_def split: sum.splits)

lemma update_player_Some:
  "pressed_keys g = Some ks \<Longrightarrow>
   update_player g = Inr (g\<lparr>player := Player_update ks (player g)\<rparr>)"
  by (simp add: update_player_def)

lemma update_player_keeps:
  "update_player g = Inr g' \<Longrightarrow>
   running g' = running g \<and> objs g' = objs g \<and> next_id g' = next_id g
   \<and> enemies g' = enemies g \<and> all_sprites g' = all_sprites g
   \<and> pressed_keys g' = pressed_keys g \<and> trace g' = trace g"
  by (auto simp: update_player_def split: option.splits)

lemma late_phases_keep:
  "pressed_keys (present (check_collision (render g))) = pressed_keys g"
  "player (present (check_collision (render g))) = player g"
  "objs (present (check_collision (render g))) = objs g"
  "next_id (present (check_collision (render g))) = next_id g"
  by (simp_all add: present_def check_collision_def render_def kill_def Let_def
      split: option.splits)

lemma late_phases_shrink:
  "set (enemies (present (check_collision (render g)))) \<subseteq> set (enemies g)"
  "set (all_sprites (present (check_collision (render g)))) \<subseteq> set (all_sprites g)"
  by (auto simp: present_def check_collision_def render_def kill_def Group_remove_def Let_def
      split: option.splits)

lemma running_late_phases:
  "running (present (check_collision (render g))) \<Longrightarrow> running g"
  by (simp add: present_def check_collision_def render_def kill_def Let_def
      split: option.splits)

lemma groups_ok_frame:
  assumes "groups_ok g" "frame a ds g = Inr g'"
  shows "groups_ok g'"
proof -
  from assms(2) obtain g2 g3 where
    2: "update_player (process_events a ds g) = Inr g2" and
    3: "update_enemies g2 = Inr g3" and
    4: "g' = present (check_collision (render g3))" by (rule frameE)
  have "groups_ok g2"
    using groups_ok_update_player[OF groups_ok_process_events[OF assms(1)] 2] .
  then have "groups_ok g3" using 3 by (rule groups_ok_update_enemies)
  then show ?thesis unfolding 4
    by (intro groups_ok_present groups_ok_check_collision groups_ok_render)
qed

lemma reachable_groups_ok: "reachable a g \<Longrightarrow> groups_ok g"
  by (induction rule: reachable.induct) (auto intro: groups_ok_init groups_ok_frame)

text \<open>A frame returns unless \<open>pressed_keys\<close> is unbound when \<^verbatim>\<open>Player.update\<close> is called.\<close>

lemma frame_total:
  assumes "groups_ok g" "ds \<noteq> [] \<or> pressed_keys g \<noteq> None"
  shows "\<exists>g'. frame a ds g = Inr g'"
proof -
  let ?g1 = "process_events a ds g"
  have "pressed_keys ?g1 \<noteq> None"
  proof (cases ds rule: rev_cases)
    case Nil
    with assms(2) show ?thesis by simp
  next
    case (snoc es d)
    then show ?thesis by (simp add: process_events_append pressed_keys_handle_event)
  qed
  then obtain ks where ks: "pressed_keys ?g1 = Some ks" by auto
  let ?g2 = "?g1\<lparr>player := Player_update ks (player ?g1)\<rparr>"
  have 2: "update_player ?g1 = Inr ?g2" using ks by (rule update_player_Some)
  have "groups_ok ?g2"
    using groups_ok_update_player[OF groups_ok_process_events[OF assms(1)] 2] .
  from update_enemies_total[OF this] obtain g3 where "update_enemies ?g2 = Inr g3" by blast
  with 2 show ?thesis by (simp add: frame_def)
qed

lemma frame_pressed_keys:
  assumes "frame a ds g = Inr g'"
  shows "pressed_keys g' = pressed_keys (process_events a ds g)"
proof -
  from assms obtain g2 g3 where
    2: "update_player (process_events a ds g) = Inr g2" and
    3: "update_enemies g2 = Inr g3" and
    4: "g' = present (check_collision (render g3))" by (rule frameE)
  show ?thesis
    using update_player_keeps[OF 2] update_enemies_keeps[OF 3] by (simp add: 4 late_phases_keep)
qed

lemma frame_player:
  assumes "frame a ds g = Inr g'"
  shows "\<exists>ks. pressed_keys (process_events a ds g) = Some ks
     \<and> player g' = Player_update ks (player (process_events a ds g))"
proof -
  from assms obtain g2 g3 where
    2: "update_player (process_events a ds g) = Inr g2" and
    3: "update_enemies g2 = Inr g3" and
    4: "g' = present (check_collision (render g3))" by (rule frameE)
  from 2 obtain ks where "pressed_keys (process_events a ds g) = Some ks"
    "player g2 = Player_update ks (player (process_events a ds g))"
    by (auto simp: update_player_def split: option.splits)
  then show ?thesis using update_enemies_keeps[OF 3] by (simp add: 4 late_phases_keep)
qed

lemma frame_running:
  assumes "frame a ds g = Inr g'" "running g'"
  shows "running g \<and> (\<forall>d\<in>set ds. \<not> is_quit (event d))"
proof -
  from assms(1) obtain g2 g3 where
    2: "update_player (process_events a ds g) = Inr g2" and
    3: "update_enemies g2 = Inr g3" and
    4: "g' = present (check_collision (render g3))" by (rule frameE)
  have "running g3" using assms(2) unfolding 4 by (rule running_late_phases)
  then have "running (process_events a ds g)"
    using update_player_keeps[OF 2] update_enemies_keeps[OF 3] by simp
  then show ?thesis by (simp add: running_process_events)
qed

lemma frame_updates_enemies:
  assumes ok: "groups_ok g" and fr: "frame a ds g = Inr g'"
    and i: "EnemyRef i \<in> set (enemies (process_events a ds g))"
  shows "objs g' i = moved (objs (process_events a ds g) i)"
proof -
  let ?g1 = "process_events a ds g"
  from fr obtain g2 g3 where
    2: "update_player ?g1 = Inr g2" and
    3: "update_enemies g2 = Inr g3" and
    4: "g' = present (check_collision (render g3))" by (rule frameE)
  have ok2: "groups_ok g2"
    using groups_ok_update_player[OF groups_ok_process_events[OF ok] 2] .
  have same: "objs g2 = objs ?g1" "enemies g2 = enemies ?g1"
    using update_player_keeps[OF 2] by simp_all
  have "objs g3 i = moved (objs g2 i)"
    using 3 i unfolding update_enemies_total[OF ok2] same by auto
  then show ?thesis by (simp add: 4 late_phases_keep same)
qed

lemma frame_never_brings_back:
  assumes ok: "groups_ok g" and fr: "frame a ds g = Inr g'"
    and i: "i < next_id g" "EnemyRef i \<notin> set (enemies g)"
  shows "EnemyRef i \<notin> set (enemies g') \<and> EnemyRef i \<notin> set (all_sprites g')"
proof -
  let ?g1 = "process_events a ds g"
  from fr obtain g2 g3 where
    2: "update_player ?g1 = Inr g2" and
    3: "update_enemies g2 = Inr g3" and
    4: "g' = present (check_collision (render g3))" by (rule frameE)
  have out: "EnemyRef i \<notin> set (all_sprites g)"
    using ok i(2) by (auto simp: groups_ok_def)
  have 1: "EnemyRef i \<notin> set (enemies ?g1)" "EnemyRef i \<notin> set (all_sprites ?g1)"
    using process_events_fresh[of a ds g] i out by auto
  have same: "enemies g2 = enemies ?g1" "all_sprites g2 = all_sprites ?g1"
    using update_player_keeps[OF 2] by simp_all
  have ok2: "groups_ok g2"
    using groups_ok_update_player[OF groups_ok_process_events[OF ok] 2] .
  from update_pass_removes[OF ok2] 3
  have "set (enemies g3) \<subseteq> set (enemies g2)" "set (all_sprites g3) \<subseteq> set (all_sprites g2)"
    by auto
  with 1 same have "EnemyRef i \<notin> set (enemies g3)" "EnemyRef i \<notin> set (all_sprites g3)"
    by auto
  then show ?thesis unfolding 4 using late_phases_shrink[of g3] by blast
qed

lemma game_loop_stopped: "\<not> running g \<Longrightarrow> game_loop a fs g = Inr g"
  by (cases fs) simp_all

lemma check_collision_hit:
  "spritecollideany PlayerRef (enemies g) g \<noteq> None \<Longrightarrow>
   check_collision g = g\<lparr>enemies := Group_remove PlayerRef (enemies g),
       all_sprites := Group_remove PlayerRef (all_sprites g),
       trace := trace g @ [PlayCollisionSound], running := False\<rparr>"
  by (auto simp: check_collision_def kill_def Let_def split: option.splits)

text \<open>An enemy spawned with draws in range is still on the screen side of the left border
  after its first update.\<close>

lemma spawned_enemy_stays:
  assumes "randint_ok (x, y, s)" "0 \<le> fst img"
  shows "\<not> rect_right (rect (moved (Enemy_init img x y s))) < 0"
proof -
  have "fst img div 2 \<le> fst img" using assms(2) by simp
  then show ?thesis
    using assms(1)
    by (simp add: randint_ok_def SCREEN_WIDTH_def moved_fields move_ip_def rect_right_def
        Enemy_init_def get_rect_center_def set_center_def get_rect_def)
qed

lemma one_spawn_frame:
  assumes g: "enemies g = []" "all_sprites g = [PlayerRef]"
    and one: "length (filter (\<lambda>d. event d = ADD_ENEMY) ds) = 1"
    and draws_ok: "\<forall>d\<in>set ds. event d = ADD_ENEMY \<longrightarrow> randint_ok (draws d)"
    and img: "0 \<le> fst (enemy_image a)"
  shows "\<exists>g'. frame a ds g = Inr g'
     \<and> (PlayerRef \<in> set (all_sprites g') \<longrightarrow>
          length (all_sprites g') = 2 \<and> length (enemies g') = 1)"
proof -
  let ?g1 = "process_events a ds g"
  let ?n = "next_id g"
  have ok: "groups_ok g" using g by (simp add: groups_ok_def)
  have "ds \<noteq> []" using one by auto
  with frame_total[OF ok] obtain g' where fr: "frame a ds g = Inr g'" by blast
  from fr obtain g2 g3 where
    2: "update_player ?g1 = Inr g2" and
    3: "update_enemies g2 = Inr g3" and
    4: "g' = present (check_collision (render g3))" by (rule frameE)
  from process_events_one_spawn[OF one, of a g] obtain d where
    d: "d \<in> set ds" "event d = ADD_ENEMY" and
    e1: "enemies ?g1 = [EnemyRef ?n]" and
    a1: "all_sprites ?g1 = [PlayerRef, EnemyRef ?n]" and
    o1: "objs ?g1 ?n = Enemy_init (enemy_image a) (fst (draws d)) (fst (snd (draws d)))
            (snd (snd (draws d)))"
    by (auto simp: g Group_add_def)
  have same: "enemies g2 = enemies ?g1" "all_sprites g2 = all_sprites ?g1" "objs g2 = objs ?g1"
    using update_player_keeps[OF 2] by simp_all
  have ok2: "groups_ok g2"
    using groups_ok_update_player[OF groups_ok_process_events[OF ok] 2] .
  have "randint_ok (fst (draws d), fst (snd (draws d)), snd (snd (draws d)))"
    using draws_ok d by simp
  from spawned_enemy_stays[OF this img]
  have stay: "\<not> leaves g2 (EnemyRef ?n)" by (simp add: leaves_def same o1)
  have g3: "enemies g3 = [EnemyRef ?n]" "all_sprites g3 = [PlayerRef, EnemyRef ?n]"
    using 3 stay unfolding update_enemies_total[OF ok2] by (auto simp: same e1 a1 leaves_def)
  have "length (all_sprites g') = 2 \<and> length (enemies g') = 1"
    if "PlayerRef \<in> set (all_sprites g')"
    using that unfolding 4
    by (auto simp: g3 present_def check_collision_def render_def kill_def Group_remove_def
        Let_def split: option.splits)
  with fr show ?thesis by blast
qed

section \<open>Evaluation on concrete inputs\<close>

lemma c_int_small: "- 2147483648 \<le> v \<Longrightarrow> v \<le> 2147483647 \<Longrightarrow> c_int v = v"
  using c_int_id[of v] by (simp add: INT_MIN_def INT_MAX_def)

lemmas input_defs = small_images_def wide_player_def spawn_tick_def fast_spawn_def
  window_closed_def right_pressed_def no_keys_def all_keys_def
  left_and_right_def player_hit_def two_enemies_def

lemmas const_defs = SCREEN_WIDTH_def SCREEN_HEIGHT_def NEW_ENEMY_INTERVAL_def FRAME_RATE_def

lemmas sprite_defs = Enemy_init_def get_rect_center_def set_center_def get_rect_def
  Player_init_def Player_update_def key_offset_def clamp_defs rect_defs moved_fields
  c_right_def c_bottom_def c_set_right_def c_set_bottom_def c_move_ip_def c_int_small
  colliderect_def spritecollideany_def sprite_rect_def

lemmas loop_defs = init_def frame_def handle_event_def is_quit_def spawn_enemy_def
  Group_add_def Group_remove_def kill_def update_player_def update_enemies_def
  Enemy_update_moved render_def check_collision_def present_def
  main_def shutdown_def Let_def

lemma groups_ok_eval:
  "groups_ok g \<longleftrightarrow>
     distinct (enemies g) \<and> distinct (all_sprites g)
     \<and> set (enemies g) = set (all_sprites g) - {PlayerRef}
     \<and> list_all (\<lambda>s. case s of PlayerRef \<Rightarrow> True | EnemyRef i \<Rightarrow> i < next_id g)
          (all_sprites g)"
  by (auto simp: groups_ok_def list_all_iff split: sprite_ref.splits)

section \<open>The game loop\<close>

text \<open>
  C1. When a frame drains a quit event (the window is closed or escape is pressed), the
  frame completes with \<open>running\<close> false and the loop executes no further frame; but the
  rest of that frame is still executed: \<^verbatim>\<open>Player.update\<close> is called, and every obstacle
  that is in the obstacle group after event processing is updated once in that frame.
\<close>

theorem quit_ends_loop_after_the_frame:
  assumes "groups_ok g" "d \<in> set ds" "is_quit (event d)"
  shows "\<exists>g'. frame a ds g = Inr g' \<and> \<not> running g' \<and> game_loop a fs g' = Inr g'
     \<and> (\<exists>ks. pressed_keys (process_events a ds g) = Some ks
           \<and> player g' = Player_update ks (player (process_events a ds g)))
     \<and> (\<forall>i. EnemyRef i \<in> set (enemies (process_events a ds g)) \<longrightarrow>
           objs g' i = moved (objs (process_events a ds g) i))"
proof -
  have "ds \<noteq> []" using assms(2) by auto
  with frame_total[OF assms(1)] obtain g' where fr: "frame a ds g = Inr g'" by blast
  have nr: "\<not> running g'" using frame_running[OF fr] assms(2,3) by blast
  show ?thesis
    using fr nr game_loop_stopped[OF nr] frame_player[OF fr]
      frame_updates_enemies[OF assms(1) fr] by blast
qed

theorem quit_ends_loop_after_the_frame_witness:
  "groups_ok (init small_images)
   \<and> window_closed \<in> set [spawn_tick, window_closed]
   \<and> is_quit (event window_closed)
   \<and> (\<exists>g'. frame small_images [spawn_tick, window_closed] (init small_images) = Inr g'
         \<and> \<not> running g'
         \<and> game_loop small_images [[spawn_tick]] g' = Inr g'
         \<and> EnemyRef 0
             \<in> set (enemies (process_events small_images [spawn_tick, window_closed]
                   (init small_images)))
         \<and> rect_x (rect (objs (process_events small_images [spawn_tick, window_closed]
               (init small_images)) 0)) = 810
         \<and> rect_x (rect (objs g' 0)) = 800)"
proof -
  have h: "groups_ok (init small_images)" "window_closed \<in> set [spawn_tick, window_closed]"
    "is_quit (event window_closed)"
    by (simp_all add: groups_ok_init is_quit_def window_closed_def)
  have e: "EnemyRef 0
      \<in> set (enemies (process_events small_images [spawn_tick, window_closed]
            (init small_images)))"
    "objs (process_events small_images [spawn_tick, window_closed] (init small_images)) 0
       = \<lparr>rect = \<lparr>rect_x = 810, rect_y = 295, rect_w = 20, rect_h = 10\<rparr>, speed = 10\<rparr>"
    by (simp_all add: input_defs loop_defs sprite_defs)
  from quit_ends_loop_after_the_frame[OF h, of small_images "[[spawn_tick]]"] e h
  show ?thesis by (auto simp: moved_fields move_ip_def)
qed

text \<open>A frame that spawns an enemy and then drains \<open>QUIT\<close>: the enemy is at x = 810 after
  event processing and at x = 800 at the end of the frame, so it has been updated after
  the quit event was processed.\<close>

theorem quit_frame_counterexample:
  "is_quit (event window_closed)
   \<and> \<not> isl (frame small_images [spawn_tick, window_closed] (init small_images))
   \<and> \<not> running (projr (frame small_images [spawn_tick, window_closed] (init small_images)))
   \<and> rect_x (rect (objs (process_events small_images [spawn_tick, window_closed]
         (init small_images)) 0)) = 810
   \<and> rect_x (rect (objs (projr (frame small_images [spawn_tick, window_closed]
         (init small_images))) 0)) = 800"
  by (simp add: input_defs const_defs loop_defs sprite_defs)

text \<open>
  C4. In an update pass every enemy of the obstacle group is updated once; it stays in
  the obstacle group and in the render group exactly when its right edge is not
  negative after that update, and leaves both otherwise; the pass adds nothing to
  either group. A frame never puts an enemy that has left back into a group, so an enemy
  is removed once. The groups are well formed in every state of the loop
  (\<open>reachable_groups_ok\<close>) and between the phases of a frame.
\<close>

theorem obstacle_removed_when_off_screen:
  "(groups_ok g \<longrightarrow>
      (\<exists>g'. update_enemies g = Inr g'
         \<and> (\<forall>i. EnemyRef i \<in> set (enemies g) \<longrightarrow>
               objs g' i = moved (objs g i)
               \<and> (EnemyRef i \<in> set (enemies g') \<longleftrightarrow> 0 \<le> rect_right (rect (objs g' i)))
               \<and> (EnemyRef i \<in> set (all_sprites g') \<longleftrightarrow> 0 \<le> rect_right (rect (objs g' i))))
         \<and> set (enemies g') \<subseteq> set (enemies g)
         \<and> set (all_sprites g') \<subseteq> set (all_sprites g)))
   \<and> (groups_ok h \<and> frame a ds h = Inr h' \<and> j < next_id h \<and> EnemyRef j \<notin> set (enemies h) \<longrightarrow>
        EnemyRef j \<notin> set (enemies h') \<and> EnemyRef j \<notin> set (all_sprites h'))"
  using update_pass_removes[of g] frame_never_brings_back[of h a ds h' j] by blast

theorem obstacle_removed_when_off_screen_witness:
  "groups_ok two_enemies
   \<and> (\<exists>g'. update_enemies two_enemies = Inr g'
        \<and> rect_right (rect (objs g' 0)) = - 5
        \<and> EnemyRef 0 \<notin> set (enemies g') \<and> EnemyRef 0 \<notin> set (all_sprites g')
        \<and> rect_right (rect (objs g' 1)) = 415
        \<and> EnemyRef 1 \<in> set (enemies g') \<and> EnemyRef 1 \<in> set (all_sprites g')
        \<and> groups_ok g' \<and> 0 < next_id g'
        \<and> (\<exists>h'. frame small_images [spawn_tick] g' = Inr h'
              \<and> enemies h' = [EnemyRef 1, EnemyRef 2]
              \<and> EnemyRef 0 \<notin> set (enemies h') \<and> EnemyRef 0 \<notin> set (all_sprites h')))"
proof -
  have ok: "groups_ok two_enemies"
    by (simp add: groups_ok_eval two_enemies_def init_def)
  have "\<exists>g'. update_enemies two_enemies = Inr g'
        \<and> rect_right (rect (objs g' 0)) = - 5 \<and> rect_right (rect (objs g' 1)) = 415
        \<and> groups_ok g' \<and> 0 < next_id g' \<and> EnemyRef 0 \<notin> set (enemies g')
        \<and> (\<exists>h'. frame small_images [spawn_tick] g' = Inr h'
              \<and> enemies h' = [EnemyRef 1, EnemyRef 2])"
    by (simp add: groups_ok_eval input_defs const_defs loop_defs sprite_defs)
  then obtain g' h' where g': "update_enemies two_enemies = Inr g'"
    "rect_right (rect (objs g' 0)) = - 5" "rect_right (rect (objs g' 1)) = 415"
    "groups_ok g'" "0 < next_id g'" "EnemyRef 0 \<notin> set (enemies g')"
    "frame small_images [spawn_tick] g' = Inr h'" "enemies h' = [EnemyRef 1, EnemyRef 2]"
    by blast
  have m: "EnemyRef 0 \<in> set (enemies two_enemies)" "EnemyRef 1 \<in> set (enemies two_enemies)"
    by (simp_all add: two_enemies_def)
  from obstacle_removed_when_off_screen[of two_enemies g' small_images "[spawn_tick]" h' 0]
    ok g' m
  show ?thesis by auto
qed

text \<open>
  C6. When \<^verbatim>\<open>spritecollideany\<close> reports a collision, the collision check removes the
  player from the render group, plays the collision sound once and sets \<open>running\<close> to
  false, and changes nothing else. Once \<open>running\<close> is false the loop executes no further
  frame, whatever the platform would still deliver, and \<^verbatim>\<open>main\<close> sleeps for 3 seconds,
  stops the music, closes the mixer and returns.
\<close>

theorem collision_ends_game:
  "(spritecollideany PlayerRef (enemies g) g \<noteq> None \<and> PlayerRef \<notin> set (enemies g) \<longrightarrow>
      check_collision g = g\<lparr>all_sprites := Group_remove PlayerRef (all_sprites g),
          trace := trace g @ [PlayCollisionSound], running := False\<rparr>)
   \<and> (\<not> running t \<longrightarrow> game_loop a fs t = Inr t)
   \<and> (game_loop a fs (init a) = Inr r \<and> \<not> running r \<longrightarrow>
        main a fs = Inr (r\<lparr>trace := trace r @ [Sleep 3, MusicStop, MixerQuit]\<rparr>))"
proof -
  have 1: "check_collision g = g\<lparr>all_sprites := Group_remove PlayerRef (all_sprites g),
          trace := trace g @ [PlayCollisionSound], running := False\<rparr>"
    if "spritecollideany PlayerRef (enemies g) g \<noteq> None" "PlayerRef \<notin> set (enemies g)"
    using that by (simp add: check_collision_hit Group_remove_def)
  have 3: "main a fs = Inr (r\<lparr>trace := trace r @ [Sleep 3, MusicStop, MixerQuit]\<rparr>)"
    if "game_loop a fs (init a) = Inr r" "\<not> running r"
    using that by (simp add: main_def shutdown_def)
  show ?thesis using 1 3 game_loop_stopped by blast
qed

theorem collision_ends_game_witness:
  "spritecollideany PlayerRef (enemies player_hit) player_hit = Some (EnemyRef 0)
   \<and> PlayerRef \<notin> set (enemies player_hit)
   \<and> all_sprites (check_collision player_hit) = [EnemyRef 0]
   \<and> trace (check_collision player_hit) = trace player_hit @ [PlayCollisionSound]
   \<and> \<not> running (check_collision player_hit)
   \<and> game_loop wide_player [[fast_spawn], []] (check_collision player_hit)
        = Inr (check_collision player_hit)
   \<and> (\<exists>r. game_loop wide_player [[fast_spawn], []] (init wide_player) = Inr r
          \<and> \<not> running r \<and> all_sprites r = [EnemyRef 0]
          \<and> main wide_player [[fast_spawn], []]
              = Inr (r\<lparr>trace := trace r @ [Sleep 3, MusicStop, MixerQuit]\<rparr>))"
proof -
  have hit: "spritecollideany PlayerRef (enemies player_hit) player_hit = Some (EnemyRef 0)"
    "PlayerRef \<notin> set (enemies player_hit)"
    by (simp_all add: input_defs const_defs loop_defs sprite_defs)
  have "\<exists>r. game_loop wide_player [[fast_spawn], []] (init wide_player) = Inr r
     \<and> \<not> running r \<and> all_sprites r = [EnemyRef 0]"
    by (simp add: input_defs const_defs loop_defs sprite_defs)
  then obtain r where r: "game_loop wide_player [[fast_spawn], []] (init wide_player) = Inr r"
    "\<not> running r" "all_sprites r = [EnemyRef 0]" by blast
  have nr: "\<not> running (check_collision player_hit)"
    by (simp add: input_defs const_defs loop_defs sprite_defs)
  from collision_ends_game[where g = player_hit and t = "check_collision player_hit"
      and a = wide_player and fs = "[[fast_spawn], []]" and r = r] hit r nr
  show ?thesis by (auto simp: Group_remove_def player_hit_def init_def Group_add_def)
qed

text \<open>
  C9. At the head of the loop, and after the events of a frame have been processed,
  every member of the obstacle group is in the render group and the player is not in
  the obstacle group. When the loop runs one frame from a running state whose render
  group holds the player alone, and the frame drains exactly one \<open>ADD_ENEMY\<close> event,
  then unless the player collides the render group has two members and the obstacle
  group one.
\<close>

theorem registry_invariant:
  "(reachable a g \<longrightarrow>
      registry_inv g \<and> groups_ok g \<and> registry_inv (process_events a es g))
   \<and> (running s \<and> enemies s = [] \<and> all_sprites s = [PlayerRef]
        \<and> length (filter (\<lambda>d. event d = ADD_ENEMY) ds) = 1
        \<and> (\<forall>d\<in>set ds. event d = ADD_ENEMY \<longrightarrow> randint_ok (draws d))
        \<and> 0 \<le> fst (enemy_image b) \<longrightarrow>
      (\<exists>s'. game_loop b [ds] s = Inr s'
         \<and> (PlayerRef \<in> set (all_sprites s') \<longrightarrow>
              length (all_sprites s') = 2 \<and> length (enemies s') = 1)))"
proof -
  have 1: "registry_inv g \<and> groups_ok g \<and> registry_inv (process_events a es g)"
    if "reachable a g"
    using reachable_groups_ok[OF that]
    by (simp add: groups_ok_registry_inv groups_ok_process_events)
  have 2: "\<exists>s'. game_loop b [ds] s = Inr s'
         \<and> (PlayerRef \<in> set (all_sprites s') \<longrightarrow>
              length (all_sprites s') = 2 \<and> length (enemies s') = 1)"
    if "running s" "enemies s = []" "all_sprites s = [PlayerRef]"
      "length (filter (\<lambda>d. event d = ADD_ENEMY) ds) = 1"
      "\<forall>d\<in>set ds. event d = ADD_ENEMY \<longrightarrow> randint_ok (draws d)"
      "0 \<le> fst (enemy_image b)"
  proof -
    from one_spawn_frame[OF that(2-6)] obtain s' where
      "frame b ds s = Inr s'"
      "PlayerRef \<in> set (all_sprites s') \<longrightarrow>
         length (all_sprites s') = 2 \<and> length (enemies s') = 1"
      by blast
    then show ?thesis using that(1) by simp
  qed
  show ?thesis using 1 2 by blast
qed

theorem registry_invariant_witness:
  "(\<exists>g. frame small_images [spawn_tick] (init small_images) = Inr g
        \<and> reachable small_images g \<and> enemies g = [EnemyRef 0]
        \<and> registry_inv g \<and> groups_ok g
        \<and> registry_inv (process_events small_images [spawn_tick] g))
   \<and> running (init small_images) \<and> enemies (init small_images) = []
   \<and> all_sprites (init small_images) = [PlayerRef]
   \<and> length (filter (\<lambda>d. event d = ADD_ENEMY) [spawn_tick]) = 1
   \<and> event spawn_tick = ADD_ENEMY \<and> randint_ok (draws spawn_tick)
   \<and> 0 \<le> fst (enemy_image small_images)
   \<and> (\<exists>s'. game_loop small_images [[spawn_tick]] (init small_images) = Inr s'
         \<and> PlayerRef \<in> set (all_sprites s')
         \<and> length (all_sprites s') = 2 \<and> length (enemies s') = 1)"
proof -
  have "\<exists>g. frame small_images [spawn_tick] (init small_images) = Inr g
      \<and> enemies g = [EnemyRef 0] \<and> PlayerRef \<in> set (all_sprites g)"
    by (simp add: input_defs const_defs loop_defs sprite_defs)
  then obtain g where g: "frame small_images [spawn_tick] (init small_images) = Inr g"
    "enemies g = [EnemyRef 0]" "PlayerRef \<in> set (all_sprites g)" by blast
  have r: "reachable small_images g"
    by (rule reachable.step[OF reachable.start _ g(1)]) (simp add: init_def)
  have h: "running (init small_images)" "enemies (init small_images) = []"
    "all_sprites (init small_images) = [PlayerRef]"
    "length (filter (\<lambda>d. event d = ADD_ENEMY) [spawn_tick]) = 1"
    "event spawn_tick = ADD_ENEMY" "randint_ok (draws spawn_tick)"
    "0 \<le> fst (enemy_image small_images)"
    by (simp_all add: init_def Group_add_def spawn_tick_def small_images_def randint_ok_def
        const_defs)
  have l: "game_loop small_images [[spawn_tick]] (init small_images) = Inr g"
    using g(1) h(1) by simp
  from registry_invariant[of small_images g "[spawn_tick]" "init small_images" "[spawn_tick]"
      small_images] r h g l
  show ?thesis by auto
qed

text \<open>
  C10. \<open>pressed_keys\<close> is assigned once for every drained event and nowhere else: after a
  frame that drains events it holds the snapshot taken after the last of them, a frame
  that drains nothing leaves it as it was, so that \<^verbatim>\<open>Player.update\<close> receives the
  snapshot of an earlier frame, and when the very first frame drains nothing the
  variable is unbound and \<^verbatim>\<open>main\<close> fails with \<open>UnboundLocalError\<close>.
\<close>

theorem pressed_keys_assigned_per_event:
  "pressed_keys (process_events a [] g) = pressed_keys g
   \<and> pressed_keys (process_events a (ds @ [d]) g) = Some (held d)
   \<and> (frame a (ds @ [d]) g = Inr g1 \<and> frame a [] g1 = Inr g2 \<longrightarrow>
        pressed_keys g1 = Some (held d) \<and> player g2 = Player_update (held d) (player g1))
   \<and> frame a [] (init a) = Inl UnboundLocalError
   \<and> main a ([] # fs) = Inl UnboundLocalError"
proof -
  have 1: "pressed_keys (process_events a (ds @ [d]) g) = Some (held d)"
    by (simp add: process_events_append pressed_keys_handle_event)
  have 2: "pressed_keys g1 = Some (held d) \<and> player g2 = Player_update (held d) (player g1)"
    if "frame a (ds @ [d]) g = Inr g1" "frame a [] g1 = Inr g2"
    using frame_pressed_keys[OF that(1)] frame_player[OF that(2)] 1 by simp
  have 3: "frame a [] (init a) = Inl UnboundLocalError"
    by (simp add: frame_def update_player_def init_def)
  have 4: "main a ([] # fs) = Inl UnboundLocalError"
    using 3 by (simp add: main_def init_def)
  show ?thesis using 1 2 3 4 by simp
qed

theorem pressed_keys_assigned_per_event_witness:
  "(\<exists>g1 g2. frame small_images ([] @ [right_pressed]) (init small_images) = Inr g1
      \<and> frame small_images [] g1 = Inr g2
      \<and> running g1
      \<and> pressed_keys g1 = Some (held right_pressed)
      \<and> rect_x (rect (player g1)) = 5
      \<and> player g2 = Player_update (held right_pressed) (player g1)
      \<and> rect_x (rect (player g2)) = 10)"
proof -
  have "\<exists>g1. frame small_images ([] @ [right_pressed]) (init small_images) = Inr g1
      \<and> running g1
      \<and> player g1 = \<lparr>rect = \<lparr>rect_x = 5, rect_y = 0, rect_w = 75, rect_h = 25\<rparr>\<rparr>
      \<and> groups_ok g1 \<and> pressed_keys g1 \<noteq> None"
    by (simp add: input_defs const_defs loop_defs sprite_defs groups_ok_eval)
  then obtain g1 where
    g1: "frame small_images ([] @ [right_pressed]) (init small_images) = Inr g1"
      "running g1"
      "player g1 = \<lparr>rect = \<lparr>rect_x = 5, rect_y = 0, rect_w = 75, rect_h = 25\<rparr>\<rparr>"
      "groups_ok g1" "pressed_keys g1 \<noteq> None" by blast
  from frame_total[OF g1(4), of "[]" small_images] g1(5)
  obtain g2 where g2: "frame small_images [] g1 = Inr g2" by blast
  from pressed_keys_assigned_per_event
    [of small_images "init small_images" "[]" right_pressed g1 g2]
  have p: "pressed_keys g1 = Some (held right_pressed)"
    "player g2 = Player_update (held right_pressed) (player g1)"
    using g1(1) g2 by simp_all
  have "rect_x (rect (player g2)) = 10"
    unfolding p(2) g1(3) by (simp add: input_defs const_defs sprite_defs)
  with g1 g2 p show ?thesis by auto
qed

end
